theory Spec2Isabelle
  imports Main "HOL-Library.Sublist"
begin

section \<open>Python text\<close>

text \<open>
  A Python \<open>str\<close> is a sequence of Unicode code points; \<open>len\<close> counts code points.
\<close>

type_synonym codepoint = nat
type_synonym pystr = "codepoint list"

definition ustr :: "string \<Rightarrow> pystr" where
  "ustr s = map of_char s"

text \<open>
  White space, as \<open>str.isspace\<close>, \<open>str.split\<close>, \<open>str.strip\<close> and the class \<open>\s\<close> of \<open>re\<close>
  have it: these are all the white-space code points of Unicode.
\<close>

definition isspace_cp :: "codepoint \<Rightarrow> bool" where
  "isspace_cp c \<longleftrightarrow>
     (9 \<le> c \<and> c \<le> 13) \<or> (28 \<le> c \<and> c \<le> 32) \<or> c = 0x85 \<or> c = 0xA0 \<or> c = 0x1680 \<or>
     (0x2000 \<le> c \<and> c \<le> 0x200A) \<or> c = 0x2028 \<or> c = 0x2029 \<or> c = 0x202F \<or>
     c = 0x205F \<or> c = 0x3000"

text \<open>
  Everything else that Python knows of a code point comes from the Unicode character
  database of the interpreter, which is no part of the repository. The model takes the
  database as a parameter \<open>U\<close>: which code points are lowercase, uppercase and titlecase
  letters, which are decimal digits (the class \<open>\d\<close>), which are alphanumeric (with the
  underscore, the word characters of \<open>\w\<close> and \<open>\b\<close>), and the lowercase mapping.
  \<open>db_tolower U b c r\<close> is what \<open>str.lower\<close> puts for the code point \<open>c\<close> that stands
  between the text \<open>b\<close> (reversed) and the text \<open>r\<close>: one to three code points, which
  depend on the neighbours for the capital sigma only.
\<close>

record unicode =
  db_lower :: "codepoint \<Rightarrow> bool"
  db_upper :: "codepoint \<Rightarrow> bool"
  db_title :: "codepoint \<Rightarrow> bool"
  db_decimal :: "codepoint \<Rightarrow> bool"
  db_alnum :: "codepoint \<Rightarrow> bool"
  db_tolower :: "pystr \<Rightarrow> codepoint \<Rightarrow> pystr \<Rightarrow> pystr"

text \<open>\<open>s.lower()\<close>\<close>

fun lower_from :: "unicode \<Rightarrow> pystr \<Rightarrow> pystr \<Rightarrow> pystr" where
  "lower_from U b [] = []"
| "lower_from U b (c # r) = db_tolower U b c r @ lower_from U (c # b) r"

definition lower :: "unicode \<Rightarrow> pystr \<Rightarrow> pystr" where
  "lower U s = lower_from U [] s"

text \<open>
  \<open>s.isupper()\<close>: no code point of \<open>s\<close> is a lowercase or a titlecase letter, and at least
  one is an uppercase letter. Digits and punctuation are allowed.
\<close>

definition isupper :: "unicode \<Rightarrow> pystr \<Rightarrow> bool" where
  "isupper U s \<longleftrightarrow>
     (\<forall>c \<in> set s. \<not> db_lower U c \<and> \<not> db_title U c) \<and> (\<exists>c \<in> set s. db_upper U c)"

text \<open>The word characters of \<open>\w\<close> and \<open>\b\<close>.\<close>

definition isword :: "unicode \<Rightarrow> codepoint \<Rightarrow> bool" where
  "isword U c \<longleftrightarrow> db_alnum U c \<or> c = 0x5F"

text \<open>
  The tables of Unicode (version 14, the one of CPython 3.11) for the code points
  U+0000..U+00FF, and for U+2012 and U+2212, which are symbols. In this range the lowercase
  mapping is one code point and does not depend on the neighbours, and no code point is
  titlecase.
\<close>

definition covered :: "codepoint \<Rightarrow> bool" where
  "covered c \<longleftrightarrow> c \<le> 0xFF \<or> c = 0x2012 \<or> c = 0x2212"

definition isupper_cp :: "codepoint \<Rightarrow> bool" where
  "isupper_cp c \<longleftrightarrow>
     (0x41 \<le> c \<and> c \<le> 0x5A) \<or> (0xC0 \<le> c \<and> c \<le> 0xD6) \<or> (0xD8 \<le> c \<and> c \<le> 0xDE)"

definition islower_cp :: "codepoint \<Rightarrow> bool" where
  "islower_cp c \<longleftrightarrow>
     (0x61 \<le> c \<and> c \<le> 0x7A) \<or> c = 0xAA \<or> c = 0xB5 \<or> c = 0xBA \<or>
     (0xDF \<le> c \<and> c \<le> 0xF6) \<or> (0xF8 \<le> c \<and> c \<le> 0xFF)"

definition lower_cp :: "codepoint \<Rightarrow> codepoint" where
  "lower_cp c = (if isupper_cp c then c + 32 else c)"

definition isdecimal_cp :: "codepoint \<Rightarrow> bool" where
  "isdecimal_cp c \<longleftrightarrow> 0x30 \<le> c \<and> c \<le> 0x39"

definition isalnum_cp :: "codepoint \<Rightarrow> bool" where
  "isalnum_cp c \<longleftrightarrow>
     isdecimal_cp c \<or> isupper_cp c \<or> islower_cp c \<or>
     c = 0xB2 \<or> c = 0xB3 \<or> c = 0xB9 \<or> (0xBC \<le> c \<and> c \<le> 0xBE)"

text \<open>
  A database has these tables when it agrees with them on the covered code points.
  Python's database does. The theorems below that depend on a table at all assume this
  much of the database and nothing of the code points beyond.
\<close>

definition has_tables :: "unicode \<Rightarrow> bool" where
  "has_tables U \<longleftrightarrow>
     (\<forall>c. covered c \<longrightarrow>
        db_lower U c = islower_cp c \<and> db_upper U c = isupper_cp c \<and> \<not> db_title U c \<and>
        db_decimal U c = isdecimal_cp c \<and> db_alnum U c = isalnum_cp c \<and>
        (\<forall>b r. db_tolower U b c r = [lower_cp c]))"

text \<open>
  The smallest such database: it has the tables, and holds every other code point for a
  caseless symbol. It serves to instantiate the theorems.
\<close>

definition basic_db :: unicode where
  "basic_db =
     \<lparr> db_lower = islower_cp, db_upper = isupper_cp, db_title = (\<lambda>c. False),
       db_decimal = isdecimal_cp, db_alnum = isalnum_cp, db_tolower = (\<lambda>b c r. [lower_cp c]) \<rparr>"

text \<open>\<open>s.strip()\<close>\<close>

definition strip :: "pystr \<Rightarrow> pystr" where
  "strip s = rev (dropWhile isspace_cp (rev (dropWhile isspace_cp s)))"

text \<open>\<open>s.split()\<close>: the maximal runs of code points that are not white space.\<close>

fun split_acc :: "pystr \<Rightarrow> pystr \<Rightarrow> pystr list" where
  "split_acc w [] = (if w = [] then [] else [w])"
| "split_acc w (c # cs) =
     (if isspace_cp c then (if w = [] then split_acc [] cs else w # split_acc [] cs)
      else split_acc (w @ [c]) cs)"

definition split :: "pystr \<Rightarrow> pystr list" where
  "split s = split_acc [] s"

text \<open>\<open>s.split(sep)\<close> for a separator of one code point: empty pieces are kept.\<close>

fun split_on :: "codepoint \<Rightarrow> pystr \<Rightarrow> pystr list" where
  "split_on sep [] = [[]]"
| "split_on sep (c # cs) =
     (if c = sep then [] # split_on sep cs
      else (case split_on sep cs of [] \<Rightarrow> [[c]] | l # ls \<Rightarrow> (c # l) # ls))"

text \<open>\<open>sep.join(xs)\<close>\<close>

fun join :: "pystr \<Rightarrow> pystr list \<Rightarrow> pystr" where
  "join sep [] = []"
| "join sep [x] = x"
| "join sep (x # y # ys) = x @ sep @ join sep (y # ys)"

text \<open>\<open>xs.index(x)\<close>: the first position of \<open>x\<close>; \<open>None\<close> stands for the \<open>ValueError\<close>.\<close>

fun index :: "'a list \<Rightarrow> 'a \<Rightarrow> nat option" where
  "index [] x = None"
| "index (y # ys) x = (if y = x then Some 0 else map_option Suc (index ys x))"

text \<open>\<open>any(k in s for k in ks)\<close>; the operator \<open>in\<close> on texts is \<^const>\<open>sublist\<close>.\<close>

definition any_in :: "pystr list \<Rightarrow> pystr \<Rightarrow> bool" where
  "any_in ks s \<longleftrightarrow> list_ex (\<lambda>k. sublist k s) ks"

section \<open>Regular expressions\<close>

text \<open>
  The fragment of Python's \<open>re\<close> that the patterns of the program use, with the semantics
  of its backtracking matcher: \<^term>\<open>rmatch p st\<close> lists the states in which a match of \<open>p\<close>
  from \<open>st\<close> can end, in the order in which the matcher tries them, so the head is the match
  that \<open>re\<close> reports. A state is the text before the position (reversed), the text after
  it, and the groups captured so far.
\<close>

datatype citem = Lit codepoint | Range codepoint codepoint | Space | Digit

fun in_item :: "unicode \<Rightarrow> citem \<Rightarrow> codepoint \<Rightarrow> bool" where
  "in_item U (Lit a) c \<longleftrightarrow> c = a"
| "in_item U (Range a b) c \<longleftrightarrow> a \<le> c \<and> c \<le> b"
| "in_item U Space c \<longleftrightarrow> isspace_cp c"
| "in_item U Digit c \<longleftrightarrow> db_decimal U c"

datatype regex =
    Chars "citem list"
  | Seq regex regex
  | Alt regex regex
  | AtLeast nat regex
  | Opt regex
  | Group regex
  | WordBoundary
  | Start
  | End
  | Empty

type_synonym mstate = "pystr \<times> pystr \<times> pystr list"

fun rsize :: "regex \<Rightarrow> nat" where
  "rsize (Seq p q) = Suc (rsize p + rsize q)"
| "rsize (Alt p q) = Suc (rsize p + rsize q)"
| "rsize (AtLeast n p) = Suc (rsize p)"
| "rsize (Opt p) = Suc (rsize p)"
| "rsize (Group p) = Suc (rsize p)"
| "rsize _ = 0"

text \<open>\<open>\b\<close>: exactly one of the code points next to the position is a word character.\<close>

definition word_boundary :: "unicode \<Rightarrow> pystr \<Rightarrow> pystr \<Rightarrow> bool" where
  "word_boundary U b r \<longleftrightarrow>
     (case b of [] \<Rightarrow> False | c # _ \<Rightarrow> isword U c) \<noteq> (case r of [] \<Rightarrow> False | c # _ \<Rightarrow> isword U c)"

text \<open>
  \<open>AtLeast n p\<close> is the greedy \<open>p{n,}\<close> (so \<open>p*\<close> is \<open>AtLeast 0 p\<close> and \<open>p+\<close> is
  \<open>AtLeast 1 p\<close>): one more round of \<open>p\<close> is tried before stopping, and a round that
  consumes nothing ends the repetition. \<open>Opt p\<close> is the greedy \<open>p?\<close>. \<open>End\<close> is \<open>$\<close>
  without \<open>MULTILINE\<close>: the end of the text, or the position before a final newline.
\<close>

function rmatch :: "unicode \<Rightarrow> regex \<Rightarrow> mstate \<Rightarrow> mstate list" where
  "rmatch U (Chars cs) (b, r, g) =
     (case r of [] \<Rightarrow> [] | c # r' \<Rightarrow> if list_ex (\<lambda>i. in_item U i c) cs then [(c # b, r', g)] else [])"
| "rmatch U (Seq p q) st = concat (map (rmatch U q) (rmatch U p st))"
| "rmatch U (Alt p q) st = rmatch U p st @ rmatch U q st"
| "rmatch U (AtLeast n p) (b, r, g) =
     concat (map (\<lambda>(b', r', g'). if length r' < length r then rmatch U (AtLeast (n - 1) p) (b', r', g') else [])
                 (rmatch U p (b, r, g)))
     @ (if n = 0 then [(b, r, g)] else [])"
| "rmatch U (Opt p) st = rmatch U p st @ [st]"
| "rmatch U (Group p) (b, r, g) =
     map (\<lambda>(b', r', g'). (b', r', g' @ [take (length r - length r') r])) (rmatch U p (b, r, g))"
| "rmatch U WordBoundary (b, r, g) = (if word_boundary U b r then [(b, r, g)] else [])"
| "rmatch U Start (b, r, g) = (if b = [] then [(b, r, g)] else [])"
| "rmatch U End (b, r, g) = (if r = [] \<or> r = [10] then [(b, r, g)] else [])"
| "rmatch U Empty st = [st]"
  by pat_completeness auto
termination
  by (relation "measures [\<lambda>(U, p, st). rsize p, \<lambda>(U, p, b, r, g). length r]") auto

declare rmatch.simps [simp del]

fun cat :: "regex list \<Rightarrow> regex" where
  "cat [] = Empty"
| "cat [p] = p"
| "cat (p # ps) = Seq p (cat ps)"

fun alts :: "regex list \<Rightarrow> regex" where
  "alts [] = Chars []"
| "alts [p] = p"
| "alts (p # ps) = Alt p (alts ps)"

definition ch :: "char \<Rightarrow> citem" where
  "ch c = Lit (of_char c)"

definition lit :: "string \<Rightarrow> regex" where
  "lit s = cat (map (\<lambda>c. Chars [ch c]) s)"

text \<open>
  The leftmost match at or after the position: the text from the start of the match, and
  the state at its end.
\<close>

fun search_from :: "unicode \<Rightarrow> regex \<Rightarrow> pystr \<Rightarrow> pystr \<Rightarrow> (pystr \<times> mstate) option" where
  "search_from U p b [] = (case rmatch U p (b, [], []) of [] \<Rightarrow> None | m # _ \<Rightarrow> Some ([], m))"
| "search_from U p b (c # cs) =
     (case rmatch U p (b, c # cs, []) of [] \<Rightarrow> search_from U p (c # b) cs | m # _ \<Rightarrow> Some (c # cs, m))"

text \<open>\<open>re.match(p, s)\<close> and \<open>re.search(p, s)\<close>: the groups of the match, or \<open>None\<close>.\<close>

definition re_match :: "unicode \<Rightarrow> regex \<Rightarrow> pystr \<Rightarrow> pystr list option" where
  "re_match U p s = (case rmatch U p ([], s, []) of [] \<Rightarrow> None | (b, r, g) # _ \<Rightarrow> Some g)"

definition re_search :: "unicode \<Rightarrow> regex \<Rightarrow> pystr \<Rightarrow> pystr list option" where
  "re_search U p s = (case search_from U p [] s of None \<Rightarrow> None | Some (s0, b, r, g) \<Rightarrow> Some g)"

text \<open>
  \<open>re.findall(p, s)\<close>: the groups of the successive non-overlapping matches, from left to
  right. After an empty match the scan moves on by one code point (no pattern of the
  program matches the empty text).
\<close>

function findall_from :: "unicode \<Rightarrow> regex \<Rightarrow> pystr \<Rightarrow> pystr \<Rightarrow> pystr list list" where
  "findall_from U p b s =
     (case search_from U p b s of
        None \<Rightarrow> []
      | Some (s0, b', s', g) \<Rightarrow>
          g # (if length s' < length s0 then findall_from U p b' s'
               else (case s' of [] \<Rightarrow> [] | c # cs \<Rightarrow> findall_from U p (c # b') cs)))"
  by pat_completeness auto
termination
proof -
  have rmatch_len: "m \<in> set (rmatch U p st) \<Longrightarrow> length (fst (snd m)) \<le> length (fst (snd st))"
    for m U p st
  proof (induction U p st arbitrary: m rule: rmatch.induct)
    case (1 U cs b r g)
    then show ?case by (cases r) (auto simp: rmatch.simps split: if_splits)
  next
    case (2 U p q st)
    from 2(3) obtain m' where m': "m' \<in> set (rmatch U p st)" "m \<in> set (rmatch U q m')"
      by (auto simp: rmatch.simps(2))
    from 2(1) [OF m'(1)] 2(2) [OF m'(1) m'(2)] show ?case by simp
  next
    case (3 U p q st)
    from 3(3) have "m \<in> set (rmatch U p st) \<or> m \<in> set (rmatch U q st)"
      by (simp add: rmatch.simps(3))
    then show ?case using 3(1) 3(2) by blast
  next
    case (4 U n p b r g)
    have "m \<in> set (concat (map (\<lambda>(b', r', g').
              if length r' < length r then rmatch U (AtLeast (n - 1) p) (b', r', g') else [])
            (rmatch U p (b, r, g)))) \<or> m = (b, r, g)"
      using 4(3) by (subst (asm) rmatch.simps) (auto split: if_splits)
    then consider
      (round) b' r' g' where "(b', r', g') \<in> set (rmatch U p (b, r, g))" "length r' < length r"
           "m \<in> set (rmatch U (AtLeast (n - 1) p) (b', r', g'))"
      | (stop) "m = (b, r, g)"
      by (auto split: if_splits)
    then show ?case
    proof cases
      case round
      from 4(2) [OF round(1) refl refl round(2) round(3)] round(2) show ?thesis by simp
    next
      case stop
      then show ?thesis by simp
    qed
  next
    case (5 U p st)
    from 5(2) have "m \<in> set (rmatch U p st) \<or> m = st"
      by (auto simp: rmatch.simps(5))
    then show ?case
    proof
      assume "m \<in> set (rmatch U p st)"
      then show ?thesis by (rule 5(1))
    next
      assume "m = st"
      then show ?thesis by simp
    qed
  next
    case (6 U p b r g)
    from 6(2) obtain m' where m': "m' \<in> set (rmatch U p (b, r, g))" "fst (snd m) = fst (snd m')"
      by (auto simp: rmatch.simps(6) case_prod_beta)
    from 6(1) [OF m'(1)] m'(2) show ?case by simp
  next
    case (7 U b r g)
    then show ?case by (simp add: rmatch.simps split: if_splits)
  next
    case (8 U b r g)
    then show ?case by (simp add: rmatch.simps split: if_splits)
  next
    case (9 U b r g)
    then show ?case by (simp add: rmatch.simps split: if_splits)
  next
    case (10 U st)
    then show ?case by (simp add: rmatch.simps)
  qed
  have search_len: "length s0 \<le> length s \<and> length s' \<le> length s0"
    if "search_from U p b s = Some (s0, b', s', g)" for U p b s s0 b' s' g
    using that
  proof (induction U p b s rule: search_from.induct)
    case (1 U p b)
    then show ?case using rmatch_len [of "(b', s', g)" U p "(b, [], [])"]
      by (auto split: list.splits)
  next
    case (2 U p b c cs)
    show ?case
    proof (cases "rmatch U p (b, c # cs, [])")
      case Nil
      with 2 show ?thesis by simp
    next
      case (Cons m ms)
      with 2 have "s0 = c # cs" "m = (b', s', g)" by auto
      with Cons rmatch_len [of m U p "(b, c # cs, [])"] show ?thesis by simp
    qed
  qed
  show ?thesis
  proof (relation "measure (\<lambda>(U, p, b, s). length s)")
    show "wf (measure (\<lambda>(U, p, b, s). length s))" by simp
  next
    fix U p b s x2 s0 y b' ya s' g
    assume "search_from U p b s = Some x2" "(s0, y) = x2" "(b', ya) = y" "(s', g) = ya"
      and less: "length s' < length s0"
    then have "search_from U p b s = Some (s0, b', s', g)" by simp
    from search_len [OF this] less
    show "((U, p, b', s'), U, p, b, s) \<in> measure (\<lambda>(U, p, b, s). length s)" by simp
  next
    fix U p b s x2 s0 y b' ya s' g c cs
    assume "search_from U p b s = Some x2" "(s0, y) = x2" "(b', ya) = y" "(s', g) = ya"
      and s': "s' = c # cs"
    then have "search_from U p b s = Some (s0, b', s', g)" by simp
    from search_len [OF this] s'
    show "((U, p, c # b', cs), U, p, b, s) \<in> measure (\<lambda>(U, p, b, s). length s)" by simp
  qed
qed

declare findall_from.simps [simp del]

definition re_findall :: "unicode \<Rightarrow> regex \<Rightarrow> pystr \<Rightarrow> pystr list list" where
  "re_findall U p s = findall_from U p [] s"

section \<open>The chunk validator\<close>

definition times_sign :: codepoint where
  "times_sign = 0xD7"

definition index_keywords :: "pystr list" where
  "index_keywords = [ustr ''table of contents'', ustr ''index'', ustr ''contents'', ustr ''signature book'']"

definition sustainability_keywords :: "pystr list" where
  "sustainability_keywords =
     [ustr ''sustainability'', ustr ''environmental'', ustr ''sostenibilidad'', ustr ''medioambiental'']"

definition certification_keywords :: "pystr list" where
  "certification_keywords =
     [ustr ''quality certifications'', ustr ''sustainability certifications'',
      ustr ''certificados'', ustr ''iso 9001'', ustr ''iso 14001'']"

definition product_keywords :: "pystr list" where
  "product_keywords =
     [ustr ''dimensions'', ustr ''designer'', ustr ''collection'', [times_sign], ustr ''cm'', ustr ''mm'']"

definition dimension_markers :: "pystr list" where
  "dimension_markers = [[times_sign], ustr ''x '', ustr ''cm'', ustr ''mm'']"

definition context_keywords :: "pystr list" where
  "context_keywords =
     [ustr ''designer'', ustr ''collection'', ustr ''material'', ustr ''ceramic'', ustr ''porcelain'',
      ustr ''tile'', ustr ''estudi{h}ac'', ustr ''dsignio'', ustr ''alt design'', ustr ''mut'',
      ustr ''yonoh'', ustr ''stacy garcia'']"

text \<open>\<open>sum\<close> of a list of booleans: the number of those that are true.\<close>

definition sum_bools :: "bool list \<Rightarrow> nat" where
  "sum_bools bs = sum_list (map of_bool bs)"

definition test_is_valid_product_chunk :: "unicode \<Rightarrow> pystr \<Rightarrow> bool" where
  "test_is_valid_product_chunk U content =
     (let content_lower = lower U content in
      if length content < 100 then False
      else if any_in index_keywords content_lower then False
      else if any_in sustainability_keywords content_lower \<and> \<not> any_in product_keywords content_lower
        then False
      else if any_in certification_keywords content_lower \<and> \<not> any_in product_keywords content_lower
        then False
      else
        let has_uppercase_name = list_ex (\<lambda>word. isupper U word \<and> length word > 2) (split content);
            has_dimensions = any_in dimension_markers content;
            has_product_context = any_in context_keywords content_lower;
            product_score = sum_bools [has_uppercase_name, has_dimensions, has_product_context]
        in product_score \<ge> 2)"

section \<open>The name extractor\<close>

definition upper_AZ :: citem where
  "upper_AZ = Range (of_char CHR ''A'') (of_char CHR ''Z'')"

definition lower_az :: citem where
  "lower_az = Range (of_char CHR ''a'') (of_char CHR ''z'')"

text \<open>\<^verbatim>\<open>^[A-Z]{2,}(?:\s+[A-Z]{2,})*$\<close>\<close>

definition standalone_pattern :: regex where
  "standalone_pattern =
     cat [Start, AtLeast 2 (Chars [upper_AZ]),
          AtLeast 0 (Seq (AtLeast 1 (Chars [Space])) (AtLeast 2 (Chars [upper_AZ]))), End]"

text \<open>\<^verbatim>\<open>\b([A-Z]{3,}(?:\s+[A-Z]{3,})*)\b\<close>\<close>

definition embedded_pattern :: regex where
  "embedded_pattern =
     cat [WordBoundary,
          Group (Seq (AtLeast 3 (Chars [upper_AZ]))
                     (AtLeast 0 (Seq (AtLeast 1 (Chars [Space])) (AtLeast 3 (Chars [upper_AZ]))))),
          WordBoundary]"

definition context_markers :: "pystr list" where
  "context_markers =
     [[times_sign], ustr ''cm'', ustr ''mm'', ustr ''designer'', ustr ''estudi'', ustr ''dsignio'',
      ustr ''yonoh'']"

datatype error = ValueError

text \<open>
  The loop over \<open>lines[:10]\<close>. The line is stripped before it is looked up in \<open>lines\<close>, and
  \<open>lines.index\<close> raises \<open>ValueError\<close> when the stripped line is not an element of \<open>lines\<close>.
\<close>

fun name_loop :: "unicode \<Rightarrow> pystr list \<Rightarrow> pystr list \<Rightarrow> error + pystr option" where
  "name_loop U lines [] = Inr None"
| "name_loop U lines (l # rest) =
     (let line = strip l in
      if re_match U standalone_pattern line \<noteq> None \<and> length line \<le> 20 then Inr (Some (strip line))
      else
        case re_search U embedded_pattern line of
          None \<Rightarrow> name_loop U lines rest
        | Some groups \<Rightarrow>
            let candidate = strip (hd groups) in
            (case index lines line of
               None \<Rightarrow> Inl ValueError
             | Some i \<Rightarrow>
                 let next_lines = join [10] (take 3 (drop i lines)) in
                 if any_in context_markers (lower U next_lines) then Inr (Some candidate)
                 else name_loop U lines rest))"

definition test_extract_product_name :: "unicode \<Rightarrow> pystr \<Rightarrow> error + pystr option" where
  "test_extract_product_name U content = (let lines = split_on 10 content in name_loop U lines (take 10 lines))"

section \<open>The metadata extractor\<close>

text \<open>
  The returned dictionary has at most the keys \<open>dimensions\<close>, \<open>designer\<close> and \<open>colors\<close>;
  a key that is not set is \<open>None\<close>. \<open>list(set(colors))\<close> keeps one copy of each color in an
  order that Python does not specify; the model keeps them in the order of \<^const>\<open>remdups\<close>,
  and no statement below depends on the order.
\<close>

record metadata =
  dimensions :: "pystr option"
  designer :: "pystr option"
  colors :: "pystr list option"

text \<open>\<^verbatim>\<open>(\d+(?:,\d+)?)\s*[\<times>x]\s*(\d+(?:,\d+)?)\s*(?:cm|mm)?\<close>\<close>

definition number_pattern :: regex where
  "number_pattern =
     Seq (AtLeast 1 (Chars [Digit])) (Opt (Seq (Chars [ch CHR '',''])  (AtLeast 1 (Chars [Digit]))))"

definition dimension_patterns :: "regex list" where
  "dimension_patterns =
     [cat [Group number_pattern, AtLeast 0 (Chars [Space]), Chars [Lit times_sign, ch CHR ''x''],
           AtLeast 0 (Chars [Space]), Group number_pattern, AtLeast 0 (Chars [Space]),
           Opt (Alt (lit ''cm'') (lit ''mm''))]]"

text \<open>
  \<^verbatim>\<open>(?:by|BY)\s+([A-Z][A-Za-z\s{}\-]+)\<close> and
  \<^verbatim>\<open>(ESTUDI\{H\}AC|DSIGNIO|ALT DESIGN|MUT|YONOH|Stacy Garcia NY)\<close>
\<close>

definition designer_patterns :: "regex list" where
  "designer_patterns =
     [cat [Alt (lit ''by'') (lit ''BY''), AtLeast 1 (Chars [Space]),
           Group (Seq (Chars [upper_AZ])
                      (AtLeast 1 (Chars [upper_AZ, lower_az, Space, ch CHR ''{'', ch CHR ''}'', ch CHR ''-''])))],
      Group (alts [lit ''ESTUDI{H}AC'', lit ''DSIGNIO'', lit ''ALT DESIGN'', lit ''MUT'', lit ''YONOH'',
                   lit ''Stacy Garcia NY''])]"

text \<open>\<^verbatim>\<open>\b(TAUPE|SAND|CLAY|WHITE|BLACK|GREY|GRAY|ANTHRACITE|BEIGE|BROWN|MINT|NAVY|BORDEAUX)\b\<close>\<close>

definition color_names :: "string list" where
  "color_names =
     [''TAUPE'', ''SAND'', ''CLAY'', ''WHITE'', ''BLACK'', ''GREY'', ''GRAY'', ''ANTHRACITE'', ''BEIGE'',
      ''BROWN'', ''MINT'', ''NAVY'', ''BORDEAUX'']"

definition color_patterns :: "regex list" where
  "color_patterns = [cat [WordBoundary, Group (alts (map lit color_names)), WordBoundary]]"

text \<open>The first loop: the first pattern with a match sets \<open>dimensions\<close> and ends the loop.\<close>

fun dimensions_loop :: "unicode \<Rightarrow> regex list \<Rightarrow> pystr \<Rightarrow> pystr option" where
  "dimensions_loop U [] content = None"
| "dimensions_loop U (pattern # patterns) content =
     (case re_findall U pattern content of
        [] \<Rightarrow> dimensions_loop U patterns content
      | m # _ \<Rightarrow> Some (m ! 0 @ [times_sign] @ m ! 1))"

text \<open>
  The second loop: the first match of a pattern is stripped, and sets \<open>designer\<close> and ends
  the loop when it is longer than 2; otherwise the next pattern is tried.
\<close>

fun designer_loop :: "unicode \<Rightarrow> regex list \<Rightarrow> pystr \<Rightarrow> pystr option" where
  "designer_loop U [] content = None"
| "designer_loop U (pattern # patterns) content =
     (case re_findall U pattern content of
        [] \<Rightarrow> designer_loop U patterns content
      | m # _ \<Rightarrow>
          (let designer = strip (m ! 0) in
           if length designer > 2 then Some designer else designer_loop U patterns content))"

text \<open>The third loop: \<open>colors.extend(matches)\<close> for every pattern.\<close>

fun colors_loop :: "unicode \<Rightarrow> regex list \<Rightarrow> pystr \<Rightarrow> pystr list" where
  "colors_loop U [] content = []"
| "colors_loop U (pattern # patterns) content =
     map (\<lambda>m. m ! 0) (re_findall U pattern content) @ colors_loop U patterns content"

definition test_extract_product_metadata :: "unicode \<Rightarrow> pystr \<Rightarrow> metadata" where
  "test_extract_product_metadata U content =
     (let colors = colors_loop U color_patterns content in
      \<lparr> dimensions = dimensions_loop U dimension_patterns content,
        designer = designer_loop U designer_patterns content,
        colors = (if colors \<noteq> [] then Some (remdups colors) else None) \<rparr>)"

section \<open>The sample chunks\<close>

text \<open>Chunk 4 and chunk 5 of \<open>test_content_filtering\<close>.\<close>

definition valenova_chunk :: pystr where
  \<open>valenova_chunk = concat
    [ustr ''39661  VALENOVA TAUPE LT/11,8X11,8\<newline>'',
     ustr ''Q59 (11,8x11,8 cm '' @ [0x2212] @ ustr '' 4[5/8]x4[5/8]")\<newline>'',
     ustr ''\<newline>'',
     ustr ''12 patterns '' @ [0xB7] @ ustr '' ** 43 Kerakoll\<newline>'',
     ustr ''\<newline>'',
     ustr ''\<newline>'',
     ustr ''39660  VALENOVA SAND LT/11,8X11,8\<newline>'',
     ustr ''Q59 (11,8x11,8 cm '' @ [0x2212] @ ustr '' 4[5/8]x4[5/8]")\<newline>'',
     ustr ''\<newline>'',
     ustr ''\<newline>'',
     ustr ''39659  VALENOVA CLAY LT/11,8X11,8\<newline>'',
     ustr ''Q59 (11,8x11,8 cm '' @ [0x2212] @ ustr '' 4[5/8]x4[5/8]")\<newline>'',
     ustr ''\<newline>'',
     ustr ''12 patterns '' @ [0xB7] @ ustr '' ** 43 Kerakoll\<newline>'',
     ustr ''\<newline>'',
     ustr ''\<newline>'',
     ustr ''39658  VALENOVA WHITE LT/11,8X11,8\<newline>'',
     ustr ''Q59 (11,8x11,8 cm '' @ [0x2212] @ ustr '' 4[5/8]x4[5/8]")\<newline>'',
     ustr ''\<newline>'',
     ustr ''12 patterns '' @ [0xB7] @ ustr '' ** 1 Kerakoll\<newline>'',
     ustr ''\<newline>'',
     ustr ''by Stacy Garcia NY'']\<close>

definition pique_chunk :: pystr where
  \<open>pique_chunk = concat
    [ustr ''-----\<newline>'',
     ustr ''\<newline>'',
     ustr ''PIQU'' @ [0xC9] @ ustr ''\<newline>'',
     ustr ''by Estudi{H}ac\<newline>'',
     ustr ''\<newline>'',
     ustr ''\<newline>'',
     ustr ''PIQU'' @ [0xC9] @ ustr '', a new collection for HARMONY by Jos'' @ [0xE9] @ ustr '' Manuel Ferrero from design studio estudi{H}ac, is\<newline>'',
     ustr ''inspired by an 18th century mechanized technique for weaving double cloth with a raised pattern.\<newline>'',
     ustr ''The collection features ceramic tiles with a distinctive textured surface that mimics the piqu'' @ [0xE9] @ ustr '' fabric technique.'']\<close>

text \<open>Further inputs, used to instantiate the theorems below.\<close>

definition indexed_text :: pystr where
  "indexed_text =
     ustr ''VALENOVA TAUPE 20x20 cm porcelain tile by designer Stacy Garcia, indexed in the 2024 catalogue of ceramic floors''"

definition lins_text :: pystr where
  "lins_text =
     ustr ''LINS WHITE 20x20 cm, a glazed wall covering with rectified edges and a matt finish, sold in boxes of 25 pieces''"

definition report_text :: pystr where
  "report_text =
     ustr ''Our sustainability report: every designer of the studio works with recycled clay, in formats from 20 cm up''"

definition mixed_token_text :: pystr where
  "mixed_token_text =
     ustr ''ref 11,8X11,8 for walls and floors, glazed, with a matt finish and straight edges, sold in boxes of 25, each 20 cm wide''"




definition labelled_text :: pystr where
  "labelled_text = ustr ''20x20 cm by YONOH WHITE''"


section \<open>Evaluation\<close>

text \<open>
  A database with the tables gives the tables' answers on the covered code points; with
  these equations the simplifier runs the model on a given text of covered code points,
  for every such database at once.
\<close>

lemma tables:
  assumes "has_tables U" and "covered c"
  shows "db_lower U c = islower_cp c" and "db_upper U c = isupper_cp c" and "db_title U c = False"
    and "db_decimal U c = isdecimal_cp c" and "db_alnum U c = isalnum_cp c"
    and "db_tolower U b c r = [lower_cp c]"
  using assms by (simp_all add: has_tables_def)

lemma basic_db_tables: "has_tables basic_db"
  by (simp add: has_tables_def basic_db_def)

lemmas text_eval =
  ustr_def isspace_cp_def isupper_cp_def islower_cp_def lower_cp_def isdecimal_cp_def isalnum_cp_def
  isword_def covered_def lower_def isupper_def strip_def split_def any_in_def sublist_code(3)
  times_sign_def Let_def

lemmas regex_eval =
  rmatch.simps word_boundary_def ch_def lit_def re_match_def re_search_def re_findall_def
  findall_from.simps upper_AZ_def lower_az_def

lemmas name_eval =
  test_extract_product_name_def standalone_pattern_def embedded_pattern_def context_markers_def

lemmas metadata_eval =
  test_extract_product_metadata_def dimension_patterns_def number_pattern_def designer_patterns_def
  color_patterns_def color_names_def

text \<open>
  The first element of \<open>re.findall\<close> is the match of \<open>re.search\<close>; the loops that use
  \<open>matches[0]\<close> only can be run without the later matches.
\<close>

lemma re_findall_first:
  assumes "re_search U p s = Some g"
  shows "\<exists>gs. re_findall U p s = g # gs"
proof -
  from assms obtain s0 b' s' where "search_from U p [] s = Some (s0, b', s', g)"
    by (auto simp: re_search_def split: option.splits)
  then show ?thesis
    unfolding re_findall_def by (subst findall_from.simps) simp
qed

lemma dimensions_loop_first:
  assumes "re_search U p content = Some g"
  shows "dimensions_loop U (p # ps) content = Some (g ! 0 @ [times_sign] @ g ! 1)"
  using re_findall_first [OF assms] by auto

lemma designer_loop_first:
  assumes "re_search U p content = Some g" and "2 < length (strip (g ! 0))"
  shows "designer_loop U (p # ps) content = Some (strip (g ! 0))"
  using re_findall_first [OF assms(1)] assms(2) by (auto simp: Let_def)

lemma colors_loop_first:
  assumes "re_search U p content = Some g"
  shows "g ! 0 \<in> set (colors_loop U (p # ps) content)"
  using re_findall_first [OF assms] by auto

section \<open>The validator: length and index rules\<close>

text \<open>
  C5. For every string shorter than 100 characters, is_valid_product_chunk returns false,
  regardless of the string's content.
\<close>

theorem short_chunk_rejected:
  "length content < 100 \<Longrightarrow> \<not> test_is_valid_product_chunk U content"
  by (simp add: test_is_valid_product_chunk_def)

theorem short_chunk_rejected_witness:
  "length (ustr ''VALENOVA 20x20 cm designer'') < 100 \<and>
   \<not> test_is_valid_product_chunk basic_db (ustr ''VALENOVA 20x20 cm designer'')"
  using short_chunk_rejected [of "ustr ''VALENOVA 20x20 cm designer''" basic_db]
  by (simp add: ustr_def)

text \<open>
  C6. For every string whose lowercased form contains "table of contents", "index",
  "contents" or "signature book" as a plain substring (also inside a longer word such as
  "indexed"), is_valid_product_chunk returns false, whatever else the string contains.
  The lowercased form is that of \<open>str.lower\<close> under any database.
\<close>

theorem index_chunk_rejected:
  assumes "\<exists>k \<in> set [ustr ''table of contents'', ustr ''index'', ustr ''contents'', ustr ''signature book''].
             sublist k (lower U content)"
  shows "\<not> test_is_valid_product_chunk U content"
  using assms
  by (simp add: test_is_valid_product_chunk_def any_in_def index_keywords_def list_ex_iff Let_def)

text \<open>
  The instance has the length and all three product indicators; "index" occurs inside
  "indexed" only.
\<close>

theorem index_chunk_rejected_witness:
  "sublist (ustr ''index'') (lower basic_db indexed_text) \<and> 100 \<le> length indexed_text \<and>
   \<not> test_is_valid_product_chunk basic_db indexed_text"
proof -
  have h: "sublist (ustr ''index'') (lower basic_db indexed_text)"
    by (simp add: tables [OF basic_db_tables] indexed_text_def text_eval)
  then have "\<exists>k \<in> set [ustr ''table of contents'', ustr ''index'', ustr ''contents'', ustr ''signature book''].
               sublist k (lower basic_db indexed_text)"
    by simp
  from index_chunk_rejected [OF this] h show ?thesis
    by (simp add: indexed_text_def ustr_def)
qed

section \<open>The validator: two of three indicators\<close>

lemma two_of_three: "2 \<le> sum_bools [a, b, c] \<longleftrightarrow> (a \<and> b) \<or> (a \<and> c) \<or> (b \<and> c)"
  by (cases a; cases b; cases c) (simp_all add: sum_bools_def)

text \<open>
  C4, as the claim states it, fails where "fully uppercase" means that every character of
  the token is an uppercase letter: the code asks \<open>str.isupper\<close>, which allows digits and
  punctuation. The text below has the length and triggers no exclusion rule; it holds
  "cm", no context keyword and no token of uppercase letters only, so one of the three
  indicators of the claim holds; and it is accepted, for its token "11,8X11,8".
\<close>

theorem mixed_token_accepted_counterexample:
  "100 \<le> length mixed_token_text \<and>
   \<not> any_in index_keywords (lower basic_db mixed_token_text) \<and>
   \<not> any_in sustainability_keywords (lower basic_db mixed_token_text) \<and>
   \<not> any_in certification_keywords (lower basic_db mixed_token_text) \<and>
   \<not> (\<exists>word \<in> set (split mixed_token_text). 2 < length word \<and> (\<forall>c \<in> set word. db_upper basic_db c)) \<and>
   sublist (ustr ''cm'') mixed_token_text \<and>
   \<not> any_in context_keywords (lower basic_db mixed_token_text) \<and>
   test_is_valid_product_chunk basic_db mixed_token_text"
proof -
  note T = tables [OF basic_db_tables]
  have len: "100 \<le> length mixed_token_text"
    by (simp add: mixed_token_text_def ustr_def)
  have idx: "\<not> any_in index_keywords (lower basic_db mixed_token_text)"
    by (simp add: T mixed_token_text_def index_keywords_def text_eval)
  have sus: "\<not> any_in sustainability_keywords (lower basic_db mixed_token_text)"
    by (simp add: T mixed_token_text_def sustainability_keywords_def text_eval)
  have cert: "\<not> any_in certification_keywords (lower basic_db mixed_token_text)"
    by (simp add: T mixed_token_text_def certification_keywords_def text_eval)
  have strict: "\<not> (\<exists>word \<in> set (split mixed_token_text).
                     2 < length word \<and> (\<forall>c \<in> set word. db_upper basic_db c))"
    by (simp add: T mixed_token_text_def text_eval)
  have cm: "sublist (ustr ''cm'') mixed_token_text"
    by (simp add: mixed_token_text_def text_eval)
  have ctx: "\<not> any_in context_keywords (lower basic_db mixed_token_text)"
    by (simp add: T mixed_token_text_def context_keywords_def text_eval)
  have up: "list_ex (\<lambda>word. isupper basic_db word \<and> length word > 2) (split mixed_token_text)"
    by (simp add: T mixed_token_text_def text_eval)
  have dim: "any_in dimension_markers mixed_token_text"
    using cm by (simp add: any_in_def dimension_markers_def)
  have "test_is_valid_product_chunk basic_db mixed_token_text"
    using len idx sus cert up dim
    by (simp add: test_is_valid_product_chunk_def Let_def two_of_three)
  with len idx sus cert strict cm ctx show ?thesis
    by blast
qed

text \<open>
  C4, amended. For every string of length at least 100 that triggers none of the three
  exclusion rules (index keywords, sustainability without product signal, certification
  without product signal), is_valid_product_chunk returns true if and only if at least 2
  of these 3 indicators hold: (a) some whitespace-delimited token is longer than 2
  characters and uppercase in the sense of \<open>str.isupper\<close>, that is, it has an uppercase
  letter and no lowercase or titlecase letter, whatever digits and punctuation it has;
  (b) the content contains one of "\<times>", "x ", "cm", "mm"; (c) the lowercased content
  contains a product-context keyword of the fixed list.
\<close>

theorem valid_iff_two_indicators:
  assumes "100 \<le> length content"
    and "\<not> (\<exists>k \<in> set [ustr ''table of contents'', ustr ''index'', ustr ''contents'', ustr ''signature book''].
             sublist k (lower U content))"
    and "\<not> ((\<exists>k \<in> set sustainability_keywords. sublist k (lower U content)) \<and>
            \<not> (\<exists>k \<in> set product_keywords. sublist k (lower U content)))"
    and "\<not> ((\<exists>k \<in> set certification_keywords. sublist k (lower U content)) \<and>
            \<not> (\<exists>k \<in> set product_keywords. sublist k (lower U content)))"
  shows "test_is_valid_product_chunk U content \<longleftrightarrow>
     (let a = (\<exists>word \<in> set (split content).
                  2 < length word \<and>
                  (\<exists>c \<in> set word. db_upper U c) \<and> (\<forall>c \<in> set word. \<not> db_lower U c \<and> \<not> db_title U c));
          b = (\<exists>k \<in> set [[times_sign], ustr ''x '', ustr ''cm'', ustr ''mm'']. sublist k content);
          c = (\<exists>k \<in> set context_keywords. sublist k (lower U content))
      in (a \<and> b) \<or> (a \<and> c) \<or> (b \<and> c))"
proof -
  have "\<not> length content < 100"
    using assms(1) by simp
  moreover have "\<not> any_in index_keywords (lower U content)"
    using assms(2) by (simp add: any_in_def index_keywords_def list_ex_iff)
  moreover have "\<not> (any_in sustainability_keywords (lower U content) \<and>
                     \<not> any_in product_keywords (lower U content))"
    using assms(3) by (simp add: any_in_def list_ex_iff)
  moreover have "\<not> (any_in certification_keywords (lower U content) \<and>
                     \<not> any_in product_keywords (lower U content))"
    using assms(4) by (simp add: any_in_def list_ex_iff)
  ultimately have "test_is_valid_product_chunk U content \<longleftrightarrow>
      2 \<le> sum_bools [list_ex (\<lambda>word. isupper U word \<and> length word > 2) (split content),
                      any_in dimension_markers content, any_in context_keywords (lower U content)]"
    unfolding test_is_valid_product_chunk_def Let_def by (simp only: if_False)
  moreover have "list_ex (\<lambda>word. isupper U word \<and> length word > 2) (split content) \<longleftrightarrow>
      (\<exists>word \<in> set (split content).
          2 < length word \<and>
          (\<exists>c \<in> set word. db_upper U c) \<and> (\<forall>c \<in> set word. \<not> db_lower U c \<and> \<not> db_title U c))"
    by (auto simp: list_ex_iff isupper_def)
  ultimately show ?thesis
    unfolding two_of_three Let_def by (simp add: any_in_def dimension_markers_def list_ex_iff)
qed

text \<open>An accepted instance: indicators (a) and (b) hold, (c) does not.\<close>

theorem valid_iff_two_indicators_witness:
  "100 \<le> length lins_text \<and> test_is_valid_product_chunk basic_db lins_text \<and>
   isupper basic_db (ustr ''LINS'') \<and> ustr ''LINS'' \<in> set (split lins_text) \<and>
   sublist (ustr ''cm'') lins_text \<and>
   \<not> (\<exists>k \<in> set context_keywords. sublist k (lower basic_db lins_text))"
proof -
  note T = tables [OF basic_db_tables]
  have h1: "100 \<le> length lins_text"
    by (simp add: lins_text_def ustr_def)
  have h2: "\<not> (\<exists>k \<in> set [ustr ''table of contents'', ustr ''index'', ustr ''contents'', ustr ''signature book''].
                sublist k (lower basic_db lins_text))"
    by (simp add: T lins_text_def text_eval)
  have h3: "\<not> ((\<exists>k \<in> set sustainability_keywords. sublist k (lower basic_db lins_text)) \<and>
               \<not> (\<exists>k \<in> set product_keywords. sublist k (lower basic_db lins_text)))"
    by (simp add: T lins_text_def sustainability_keywords_def product_keywords_def text_eval)
  have h4: "\<not> ((\<exists>k \<in> set certification_keywords. sublist k (lower basic_db lins_text)) \<and>
               \<not> (\<exists>k \<in> set product_keywords. sublist k (lower basic_db lins_text)))"
    by (simp add: T lins_text_def certification_keywords_def product_keywords_def text_eval)
  have a: "isupper basic_db (ustr ''LINS'')" "ustr ''LINS'' \<in> set (split lins_text)"
    by (simp_all add: T lins_text_def text_eval)
  have b: "sublist (ustr ''cm'') lins_text"
    by (simp add: lins_text_def text_eval)
  have c: "\<not> (\<exists>k \<in> set context_keywords. sublist k (lower basic_db lins_text))"
    by (simp add: T lins_text_def context_keywords_def text_eval)
  have a': "\<exists>word \<in> set (split lins_text).
              2 < length word \<and> (\<exists>c \<in> set word. db_upper basic_db c) \<and>
              (\<forall>c \<in> set word. \<not> db_lower basic_db c \<and> \<not> db_title basic_db c)"
    using a by (intro bexI [of _ "ustr ''LINS''"]) (simp_all add: isupper_def ustr_def)
  have "test_is_valid_product_chunk basic_db lins_text"
    using valid_iff_two_indicators [OF h1 h2 h3 h4] a' b by (simp add: Let_def)
  with h1 a b c show ?thesis
    by blast
qed

section \<open>The validator: sustainability text with product signals\<close>

text \<open>
  Lowercasing keeps an occurrence of a keyword whose code points are covered and are their
  own lowercase.
\<close>

lemma lower_from_keeps:
  assumes "has_tables U" and "\<forall>c \<in> set k. covered c \<and> lower_cp c = c"
  shows "lower_from U b (k @ ss) = k @ lower_from U (rev k @ b) ss"
  using assms(2) by (induction k arbitrary: b) (simp_all add: tables [OF assms(1)])

lemma lower_from_append:
  "\<exists>x. lower_from U b (ps @ rest) = x @ lower_from U (rev ps @ b) rest"
proof (induction ps arbitrary: b)
  case Nil
  then show ?case by simp
next
  case (Cons c ps)
  from Cons [of "c # b"] obtain x where
    "lower_from U (c # b) (ps @ rest) = x @ lower_from U (rev ps @ c # b) rest" ..
  then have "lower_from U b ((c # ps) @ rest) =
               (db_tolower U b c (ps @ rest) @ x) @ lower_from U (rev (c # ps) @ b) rest"
    by simp
  then show ?case by blast
qed

lemma sublist_lower:
  assumes "has_tables U" and "sublist k s" and "\<forall>c \<in> set k. covered c \<and> lower_cp c = c"
  shows "sublist k (lower U s)"
proof -
  from assms(2) obtain ps ss where s: "s = ps @ k @ ss"
    by (auto simp: sublist_def)
  obtain x where "lower_from U [] (ps @ k @ ss) = x @ lower_from U (rev ps @ []) (k @ ss)"
    using lower_from_append [of U "[]" ps "k @ ss"] ..
  then have "lower U s = x @ k @ lower_from U (rev k @ rev ps) ss"
    using lower_from_keeps [OF assms(1,3)] by (simp add: lower_def s)
  then show ?thesis
    by (auto simp: sublist_def)
qed

text \<open>
  C7, as the claim states it, fails: a string with "sustainability", "designer" and "cm"
  that is shorter than 100 characters is rejected by the length rule.
\<close>

theorem sustainability_needs_length_counterexample:
  "sublist (ustr ''sustainability'') (ustr ''sustainability designer cm'') \<and>
   sublist (ustr ''designer'') (ustr ''sustainability designer cm'') \<and>
   sublist (ustr ''cm'') (ustr ''sustainability designer cm'') \<and>
   \<not> test_is_valid_product_chunk basic_db (ustr ''sustainability designer cm'')"
  by (simp add: test_is_valid_product_chunk_def text_eval)

text \<open>
  C7, amended. For every string of length at least 100 whose lowercased form contains
  none of the index keywords and that contains "sustainability", "designer" and "cm",
  is_valid_product_chunk returns true. The database is any one with the tables, as
  the letters of "designer" must be their own lowercase.
\<close>

theorem mixed_sustainability_chunk_accepted:
  assumes "has_tables U"
    and "100 \<le> length content"
    and "\<not> (\<exists>k \<in> set [ustr ''table of contents'', ustr ''index'', ustr ''contents'', ustr ''signature book''].
             sublist k (lower U content))"
    and "sublist (ustr ''sustainability'') content"
    and "sublist (ustr ''designer'') content"
    and "sublist (ustr ''cm'') content"
  shows "test_is_valid_product_chunk U content"
proof -
  have d: "sublist (ustr ''designer'') (lower U content)"
    using assms(1,5) by (rule sublist_lower) (simp add: ustr_def covered_def lower_cp_def isupper_cp_def)
  have prod: "any_in product_keywords (lower U content)"
    using d by (simp add: any_in_def product_keywords_def)
  have ctx: "any_in context_keywords (lower U content)"
    using d by (simp add: any_in_def context_keywords_def)
  have dim: "any_in dimension_markers content"
    using assms(6) by (simp add: any_in_def dimension_markers_def)
  have idx: "\<not> any_in index_keywords (lower U content)"
    using assms(3) by (simp add: any_in_def index_keywords_def list_ex_iff)
  show ?thesis
    using assms(2) idx prod ctx dim
    by (simp add: test_is_valid_product_chunk_def Let_def two_of_three)
qed

theorem mixed_sustainability_chunk_accepted_witness:
  "has_tables basic_db \<and> 100 \<le> length report_text \<and>
   sublist (ustr ''sustainability'') report_text \<and>
   sublist (ustr ''designer'') report_text \<and> sublist (ustr ''cm'') report_text \<and>
   test_is_valid_product_chunk basic_db report_text"
proof -
  have h1: "100 \<le> length report_text"
    by (simp add: report_text_def ustr_def)
  have h2: "\<not> (\<exists>k \<in> set [ustr ''table of contents'', ustr ''index'', ustr ''contents'', ustr ''signature book''].
                sublist k (lower basic_db report_text))"
    by (simp add: tables [OF basic_db_tables] report_text_def text_eval)
  have h3: "sublist (ustr ''sustainability'') report_text"
    by (simp add: report_text_def text_eval)
  have h4: "sublist (ustr ''designer'') report_text"
    by (simp add: report_text_def text_eval)
  have h5: "sublist (ustr ''cm'') report_text"
    by (simp add: report_text_def text_eval)
  from mixed_sustainability_chunk_accepted [OF basic_db_tables h1 h2 h3 h4 h5] basic_db_tables h1 h3 h4 h5
  show ?thesis
    by simp
qed

section \<open>The name extractor\<close>

text \<open>
  C2. The claim is that none of the three operations raises. The name extractor does: a
  line with white space around it that holds an uppercase run, and that is not a
  standalone name, is stripped and then looked up in \<open>lines\<close>, where only the unstripped
  line is.
\<close>

theorem name_extractor_raises:
  assumes "has_tables U"
  shows "test_extract_product_name U (ustr '' ABC x'') = Inl ValueError"
  by (simp add: tables [OF assms] name_eval text_eval regex_eval)

theorem name_extractor_raises_witness:
  "has_tables basic_db \<and> test_extract_product_name basic_db (ustr '' ABC x'') = Inl ValueError"
  using name_extractor_raises [OF basic_db_tables] basic_db_tables by simp

text \<open>
  C1. On the VALENOVA chunk the name extractor returns "VALENOVA TAUPE", not "VALENOVA":
  the embedded pattern takes every following uppercase token of 3 letters or more.
\<close>

theorem valenova_name:
  assumes "has_tables U"
  shows "test_extract_product_name U valenova_chunk = Inr (Some (ustr ''VALENOVA TAUPE''))"
  by (simp add: tables [OF assms] valenova_chunk_def name_eval text_eval regex_eval)

theorem valenova_name_witness:
  "has_tables basic_db \<and>
   test_extract_product_name basic_db valenova_chunk = Inr (Some (ustr ''VALENOVA TAUPE''))"
  using valenova_name [OF basic_db_tables] basic_db_tables by simp

text \<open>
  The rest of what the sample expects of the chunk holds: it is valid, its dimensions
  are "11,8\<times>11,8", its designer is "Stacy Garcia NY" and "TAUPE" is one of its colors.
\<close>

lemma valenova_valid:
  assumes "has_tables U"
  shows "test_is_valid_product_chunk U valenova_chunk"
proof -
  note T = tables [OF assms]
  have len: "\<not> length valenova_chunk < 100"
    by (simp add: valenova_chunk_def ustr_def)
  have idx: "\<not> any_in index_keywords (lower U valenova_chunk)"
    by (simp add: T valenova_chunk_def index_keywords_def text_eval)
  have sus: "\<not> any_in sustainability_keywords (lower U valenova_chunk)"
    by (simp add: T valenova_chunk_def sustainability_keywords_def text_eval)
  have cert: "\<not> any_in certification_keywords (lower U valenova_chunk)"
    by (simp add: T valenova_chunk_def certification_keywords_def text_eval)
  have dim: "any_in dimension_markers valenova_chunk"
    by (simp add: valenova_chunk_def dimension_markers_def text_eval)
  have ctx: "any_in context_keywords (lower U valenova_chunk)"
    by (simp add: T valenova_chunk_def context_keywords_def text_eval)
  show ?thesis
    using len idx sus cert dim ctx
    by (simp add: test_is_valid_product_chunk_def Let_def two_of_three)
qed

lemma valenova_dimensions:
  assumes "has_tables U"
  shows "dimensions (test_extract_product_metadata U valenova_chunk) =
           Some (ustr ''11,8'' @ [times_sign] @ ustr ''11,8'')"
proof -
  have first: "re_search U (dimension_patterns ! 0) valenova_chunk = Some [ustr ''11,8'', ustr ''11,8'']"
    by (simp add: tables [OF assms] valenova_chunk_def dimension_patterns_def number_pattern_def
        text_eval regex_eval)
  have "dimensions_loop U dimension_patterns valenova_chunk =
          Some ([ustr ''11,8'', ustr ''11,8''] ! 0 @ [times_sign] @ [ustr ''11,8'', ustr ''11,8''] ! 1)"
    unfolding dimension_patterns_def
    by (rule dimensions_loop_first [OF first [unfolded dimension_patterns_def nth_Cons_0]])
  then show ?thesis
    by (simp add: test_extract_product_metadata_def Let_def)
qed

lemma valenova_designer:
  assumes "has_tables U"
  shows "designer (test_extract_product_metadata U valenova_chunk) = Some (ustr ''Stacy Garcia NY'')"
proof -
  have first: "re_search U (designer_patterns ! 0) valenova_chunk = Some [ustr ''Stacy Garcia NY'']"
    by (simp add: tables [OF assms] valenova_chunk_def designer_patterns_def text_eval regex_eval)
  have "designer_loop U designer_patterns valenova_chunk =
          Some (strip ([ustr ''Stacy Garcia NY''] ! 0))"
    unfolding designer_patterns_def
    by (rule designer_loop_first [OF first [unfolded designer_patterns_def nth_Cons_0]])
       (simp add: text_eval)
  then show ?thesis
    by (simp add: test_extract_product_metadata_def text_eval)
qed

lemma valenova_colors:
  assumes "has_tables U"
  shows "\<exists>cs. colors (test_extract_product_metadata U valenova_chunk) = Some cs \<and>
              ustr ''TAUPE'' \<in> set cs"
proof -
  have "re_search U (color_patterns ! 0) valenova_chunk = Some [ustr ''TAUPE'']"
    by (simp add: tables [OF assms] valenova_chunk_def color_patterns_def color_names_def
        text_eval regex_eval)
  from colors_loop_first [where ps = "[]", OF this [unfolded color_patterns_def nth_Cons_0]]
  have "ustr ''TAUPE'' \<in> set (colors_loop U color_patterns valenova_chunk)"
    by (simp add: color_patterns_def)
  then show ?thesis
    by (auto simp: test_extract_product_metadata_def Let_def)
qed

text \<open>
  C3. On the PIQUE chunk (the name ends in U+00C9, E with acute accent) the name extractor
  returns "HARMONY": U+00C9 is outside \<open>[A-Z]\<close> and is a word character, so neither
  pattern matches the heading. The designer is "Estudi{H}ac", three newlines and "PIQU":
  the class \<open>[A-Za-z\s{}\-]\<close> admits newlines.
\<close>

theorem pique_name_and_designer:
  assumes "has_tables U"
  shows "test_extract_product_name U pique_chunk = Inr (Some (ustr ''HARMONY'')) \<and>
         designer (test_extract_product_metadata U pique_chunk) =
           Some (ustr ''Estudi{H}ac\<newline>\<newline>\<newline>PIQU'')"
proof -
  note T = tables [OF assms]
  have name: "test_extract_product_name U pique_chunk = Inr (Some (ustr ''HARMONY''))"
    by (simp add: T pique_chunk_def name_eval text_eval regex_eval)
  have first: "re_search U (designer_patterns ! 0) pique_chunk =
                 Some [ustr ''Estudi{H}ac\<newline>\<newline>\<newline>PIQU'']"
    by (simp add: T pique_chunk_def designer_patterns_def text_eval regex_eval)
  have "designer_loop U designer_patterns pique_chunk =
          Some (strip ([ustr ''Estudi{H}ac\<newline>\<newline>\<newline>PIQU''] ! 0))"
    unfolding designer_patterns_def
    by (rule designer_loop_first [OF first [unfolded designer_patterns_def nth_Cons_0]])
       (simp add: text_eval)
  then have "designer (test_extract_product_metadata U pique_chunk) =
               Some (ustr ''Estudi{H}ac\<newline>\<newline>\<newline>PIQU'')"
    by (simp add: test_extract_product_metadata_def text_eval)
  with name show ?thesis
    by simp
qed

theorem pique_name_and_designer_witness:
  "has_tables basic_db \<and>
   test_extract_product_name basic_db pique_chunk = Inr (Some (ustr ''HARMONY'')) \<and>
   designer (test_extract_product_metadata basic_db pique_chunk) =
     Some (ustr ''Estudi{H}ac\<newline>\<newline>\<newline>PIQU'')"
  using pique_name_and_designer [OF basic_db_tables] basic_db_tables by simp









section \<open>The metadata extractor\<close>



text \<open>Matching a sequence, a literal and a list of alternatives.\<close>

lemma rmatch_cat_Cons:
  "rmatch U (cat (p # ps)) st = concat (map (rmatch U (cat ps)) (rmatch U p st))"
proof (cases ps)
  case Nil
  have "concat (map (\<lambda>x. [x]) xs) = xs" for xs :: "mstate list"
    by (induction xs) simp_all
  with Nil show ?thesis
    by (simp add: rmatch.simps(10) [abs_def])
next
  case (Cons q qs)
  then show ?thesis by (simp add: rmatch.simps(2))
qed

lemma rmatch_lit:
  "rmatch U (lit w) (b, r, g) =
     (if prefix (ustr w) r then [(rev (ustr w) @ b, drop (length w) r, g)] else [])"
proof (induction w arbitrary: b r)
  case Nil
  then show ?case by (simp add: lit_def ustr_def rmatch.simps)
next
  case (Cons c w)
  have "rmatch U (lit (c # w)) (b, r, g) =
          concat (map (rmatch U (lit w)) (rmatch U (Chars [ch c]) (b, r, g)))"
    by (simp add: lit_def rmatch_cat_Cons)
  also have "\<dots> = (if prefix (ustr (c # w)) r
                    then [(rev (ustr (c # w)) @ b, drop (length (c # w)) r, g)] else [])"
  proof (cases r)
    case Nil
    then show ?thesis by (simp add: rmatch.simps ustr_def)
  next
    case (Cons x xs)
    then show ?thesis
      using Cons.IH [of "x # b" xs]
      by (auto simp: rmatch.simps ustr_def ch_def)
  qed
  finally show ?case .
qed

lemma rmatch_alts:
  "rmatch U (alts ps) (b, r, g) = concat (map (\<lambda>p. rmatch U p (b, r, g)) ps)"
proof (induction ps rule: alts.induct)
  case 1
  then show ?case by (simp add: rmatch.simps split: list.splits)
next
  case (2 p)
  then show ?case by simp
next
  case (3 p q qs)
  then show ?case by (simp add: rmatch.simps(3))
qed

text \<open>A match of a pattern \<open>\b(w1|...|wn)\b\<close> captures one of the words.\<close>

lemma rmatch_word_group:
  assumes "m \<in> set (rmatch U (cat [WordBoundary, Group (alts (map lit ws)), WordBoundary]) (b, r, []))"
  shows "\<exists>w \<in> set ws. snd (snd m) = [ustr w]"
proof -
  have alt: "set (rmatch U (alts (map lit ws)) (b, r, [])) \<subseteq>
               {(rev (ustr w) @ b, drop (length w) r, []) | w. w \<in> set ws \<and> prefix (ustr w) r}"
    by (auto simp: rmatch_alts rmatch_lit)
  have grp: "\<exists>w \<in> set ws. snd (snd m') = [ustr w]"
    if "m' \<in> set (rmatch U (Group (alts (map lit ws))) (b, r, []))" for m'
  proof -
    from that obtain b' r' g' where m': "(b', r', g') \<in> set (rmatch U (alts (map lit ws)) (b, r, []))"
      "m' = (b', r', g' @ [take (length r - length r') r])"
      by (auto simp: rmatch.simps(6))
    with alt obtain w where w: "w \<in> set ws" "prefix (ustr w) r" "r' = drop (length w) r" "g' = []"
      by auto
    from w(2) obtain t where "r = ustr w @ t"
      by (auto simp: prefix_def)
    then have "take (length r - length r') r = ustr w"
      using w(3) by (simp add: ustr_def)
    with m'(2) w(1,4) show ?thesis by auto
  qed
  from assms obtain m1 m2 where
    "m1 \<in> set (rmatch U WordBoundary (b, r, []))"
    "m2 \<in> set (rmatch U (Group (alts (map lit ws))) m1)"
    "m \<in> set (rmatch U WordBoundary m2)"
    by (auto simp: rmatch.simps(2))
  moreover from this(1) have "m1 = (b, r, [])"
    by (simp add: rmatch.simps(7) split: if_splits)
  moreover have "m = m2"
    using \<open>m \<in> set (rmatch U WordBoundary m2)\<close>
    by (cases m2) (simp add: rmatch.simps(7) split: if_splits)
  ultimately show ?thesis
    using grp by simp
qed

text \<open>What \<open>search\<close> and \<open>findall\<close> report are matches of the pattern.\<close>

lemma search_from_head:
  assumes "search_from U p b s = Some (s0, m)"
  shows "\<exists>b0. m \<in> set (rmatch U p (b0, s0, []))"
  using assms
proof (induction U p b s rule: search_from.induct)
  case (1 U p b)
  then have "m \<in> set (rmatch U p (b, [], []))" "s0 = []"
    by (auto split: list.splits)
  then show ?case by blast
next
  case (2 U p b c cs)
  show ?case
  proof (cases "rmatch U p (b, c # cs, [])")
    case Nil
    with 2 show ?thesis by simp
  next
    case (Cons m' ms)
    with 2(2) have "m \<in> set (rmatch U p (b, c # cs, []))" "s0 = c # cs"
      by auto
    then show ?thesis by blast
  qed
qed

lemma findall_from_groups:
  assumes "g \<in> set (findall_from U p b s)"
    and "\<And>b r m. m \<in> set (rmatch U p (b, r, [])) \<Longrightarrow> Q (snd (snd m))"
  shows "Q g"
  using assms
proof (induction U p b s rule: findall_from.induct)
  case (1 U p b s)
  note Q = "1.prems"(2)
  show ?case
  proof (cases "search_from U p b s")
    case None
    with "1.prems"(1) show ?thesis by (simp add: findall_from.simps)
  next
    case (Some x)
    obtain s0 b' s' g' where x: "x = (s0, b', s', g')" by (cases x) auto
    from Some x have "search_from U p b s = Some (s0, b', s', g')" by simp
    from search_from_head [OF this] obtain b0 where "(b', s', g') \<in> set (rmatch U p (b0, s0, []))" ..
    from Q [OF this] have here: "Q g'" by simp
    from "1.prems"(1) Some x have "g = g' \<or>
        (length s' < length s0 \<and> g \<in> set (findall_from U p b' s')) \<or>
        (\<not> length s' < length s0 \<and> (\<exists>c cs. s' = c # cs \<and> g \<in> set (findall_from U p (c # b') cs)))"
      by (subst (asm) findall_from.simps) (auto split: if_splits list.splits)
    then show ?thesis
    proof (elim disjE conjE exE)
      assume "g = g'"
      with here show ?thesis by simp
    next
      assume "length s' < length s0" "g \<in> set (findall_from U p b' s')"
      then show ?thesis
        using "1.IH"(1) [OF Some x [symmetric] refl refl] Q by blast
    next
      fix c cs
      assume "\<not> length s' < length s0" "s' = c # cs" "g \<in> set (findall_from U p (c # b') cs)"
      then show ?thesis
        using "1.IH"(2) [OF Some x [symmetric] refl refl] Q by blast
    qed
  qed
qed

lemma color_findall_allowlisted:
  assumes "g \<in> set (re_findall U (cat [WordBoundary, Group (alts (map lit ws)), WordBoundary]) content)"
  shows "g ! 0 \<in> ustr ` set ws"
proof -
  have "\<exists>w \<in> set ws. g = [ustr w]"
    using assms unfolding re_findall_def
    by (rule findall_from_groups) (rule rmatch_word_group)
  then show ?thesis by auto
qed

text \<open>The three loops.\<close>

lemma dimensions_loop_Some:
  assumes "dimensions_loop U ps content = Some d"
  shows "\<exists>p \<in> set ps. \<exists>g gs. re_findall U p content = g # gs \<and> d = g ! 0 @ [times_sign] @ g ! 1"
  using assms by (induction ps) (auto split: list.splits)

lemma designer_loop_Some:
  assumes "designer_loop U ps content = Some d"
  shows "2 < length d \<and> (\<exists>p \<in> set ps. \<exists>g gs. re_findall U p content = g # gs \<and> d = strip (g ! 0))"
  using assms by (induction ps) (auto simp: Let_def split: list.splits if_splits)

lemma colors_loop_set:
  "set (colors_loop U ps content) = (\<Union>p \<in> set ps. (\<lambda>g. g ! 0) ` set (re_findall U p content))"
  by (induction ps) auto

text \<open>
  C10. For every input, the record returned by extract_product_metadata has no trivial
  field. \<open>dimensions\<close> is present only when a dimension pattern matched, and is the two
  groups of the first match around "\<times>". \<open>designer\<close> is present only as the stripped first
  match of a designer pattern, and is then longer than 2. \<open>colors\<close> is present only when a
  color pattern matched, and is then a non-empty list without duplicates of names of the
  allowlist, each one a match of the pattern.
\<close>

theorem metadata_fields_not_trivial:
  "(\<forall>d. dimensions (test_extract_product_metadata U content) = Some d \<longrightarrow>
      d \<noteq> [] \<and>
      (\<exists>p \<in> set dimension_patterns. \<exists>g gs.
          re_findall U p content = g # gs \<and> d = g ! 0 @ [times_sign] @ g ! 1)) \<and>
   (\<forall>d. designer (test_extract_product_metadata U content) = Some d \<longrightarrow>
      2 < length d \<and>
      (\<exists>p \<in> set designer_patterns. \<exists>g gs. re_findall U p content = g # gs \<and> d = strip (g ! 0))) \<and>
   (\<forall>cs. colors (test_extract_product_metadata U content) = Some cs \<longrightarrow>
      cs \<noteq> [] \<and> distinct cs \<and> set cs \<subseteq> ustr ` set color_names \<and>
      (\<forall>c \<in> set cs. \<exists>p \<in> set color_patterns. \<exists>g \<in> set (re_findall U p content). c = g ! 0))"
proof (intro conjI allI impI)
  fix d assume "dimensions (test_extract_product_metadata U content) = Some d"
  then have "dimensions_loop U dimension_patterns content = Some d"
    by (simp add: test_extract_product_metadata_def Let_def)
  from dimensions_loop_Some [OF this]
  show "\<exists>p \<in> set dimension_patterns. \<exists>g gs.
          re_findall U p content = g # gs \<and> d = g ! 0 @ [times_sign] @ g ! 1" .
  then show "d \<noteq> []" by auto
next
  fix d assume "designer (test_extract_product_metadata U content) = Some d"
  then have "designer_loop U designer_patterns content = Some d"
    by (simp add: test_extract_product_metadata_def Let_def)
  from designer_loop_Some [OF this]
  show "2 < length d"
    and "\<exists>p \<in> set designer_patterns. \<exists>g gs. re_findall U p content = g # gs \<and> d = strip (g ! 0)"
    by simp_all
next
  fix cs assume "colors (test_extract_product_metadata U content) = Some cs"
  then have cs: "colors_loop U color_patterns content \<noteq> []"
    "cs = remdups (colors_loop U color_patterns content)"
    by (auto simp: test_extract_product_metadata_def Let_def split: if_splits)
  from cs show "cs \<noteq> []" by simp
  from cs show "distinct cs" by simp
  from cs have set_cs:
    "set cs = (\<Union>p \<in> set color_patterns. (\<lambda>g. g ! 0) ` set (re_findall U p content))"
    by (simp add: colors_loop_set)
  then show "\<forall>c \<in> set cs. \<exists>p \<in> set color_patterns. \<exists>g \<in> set (re_findall U p content). c = g ! 0"
    by auto
  show "set cs \<subseteq> ustr ` set color_names"
    unfolding set_cs using color_findall_allowlisted [of _ U color_names content]
    by (auto simp: color_patterns_def)
qed

text \<open>An instance with all three fields.\<close>

theorem metadata_fields_not_trivial_witness:
  "dimensions (test_extract_product_metadata basic_db labelled_text) =
     Some (ustr ''20'' @ [times_sign] @ ustr ''20'') \<and>
   designer (test_extract_product_metadata basic_db labelled_text) = Some (ustr ''YONOH WHITE'') \<and>
   colors (test_extract_product_metadata basic_db labelled_text) = Some [ustr ''WHITE''] \<and>
   2 < length (ustr ''YONOH WHITE'') \<and> ustr ''WHITE'' \<in> ustr ` set color_names"
proof -
  have d: "dimensions (test_extract_product_metadata basic_db labelled_text) =
             Some (ustr ''20'' @ [times_sign] @ ustr ''20'')"
    by (simp add: tables [OF basic_db_tables] labelled_text_def metadata_eval text_eval regex_eval)
  have n: "designer (test_extract_product_metadata basic_db labelled_text) = Some (ustr ''YONOH WHITE'')"
    by (simp add: tables [OF basic_db_tables] labelled_text_def metadata_eval text_eval regex_eval)
  have c: "colors (test_extract_product_metadata basic_db labelled_text) = Some [ustr ''WHITE'']"
    by (simp add: tables [OF basic_db_tables] labelled_text_def metadata_eval text_eval regex_eval)
  from metadata_fields_not_trivial [of basic_db labelled_text] d n c show ?thesis
    by auto
qed

end
